theory Spec2Isabelle
  imports Complex_Main "HOL-Library.Word" "HOL-Library.Signed_Division"
begin

section \<open>ratioboss: numbers\<close>

text \<open>
  Go's \<^verbatim>\<open>int64\<close> (and \<^verbatim>\<open>byt.Size\<close>, which is an \<^verbatim>\<open>int64\<close>) is a 64-bit word read
  as two's complement: \<open>+\<close>, \<open>-\<close> and \<open>*\<close> wrap around silently, comparisons are signed
  (\<open><s\<close>, \<open>\<le>s\<close>). \<^verbatim>\<open>uint64(x)\<close> of an \<^verbatim>\<open>int64\<close> keeps the bits, so it is the same word
  read with \<open>uint\<close>.

  \<^verbatim>\<open>float64\<close> is idealised: a finite \<^verbatim>\<open>float64\<close> is the real number it denotes and the
  arithmetic is exact. Rounding to 53 bits is outside this embedding.
\<close>

type_synonym Size = "64 word"
type_synonym int32 = "32 word"

text \<open>The conversion \<^verbatim>\<open>float64(n)\<close> of an \<^verbatim>\<open>int64\<close>.\<close>

definition float64 :: "64 word \<Rightarrow> real" where
  "float64 n = real_of_int (sint n)"

text \<open>
  The conversions \<^verbatim>\<open>int64(x)\<close> and \<^verbatim>\<open>byt.Size(x)\<close> of a \<^verbatim>\<open>float64\<close>: the fraction is
  discarded (truncation towards zero). For a value that does not fit, Go leaves the result
  to the implementation; amd64 yields the least \<^verbatim>\<open>int64\<close>, which is what is written here.
  Every statement below that depends on the converted value assumes that it fits.
\<close>

definition trunc :: "real \<Rightarrow> int" where
  "trunc x = (if 0 \<le> x then \<lfloor>x\<rfloor> else \<lceil>x\<rceil>)"

definition fits_int64 :: "real \<Rightarrow> bool" where
  "fits_int64 x = (- (2 ^ 63) \<le> x \<and> x < 2 ^ 63)"

definition to_int64 :: "real \<Rightarrow> 64 word" where
  "to_int64 x = (if fits_int64 x then word_of_int (trunc x) else word_of_int (- (2 ^ 63)))"

section \<open>Speed noise\<close>

text \<open>
  Both generators take the value \<open>r\<close> returned by \<^verbatim>\<open>rand.Float64()\<close>, a number in
  \<open>[0, 1)\<close>, as an argument.

  \<^verbatim>\<open>func randNoise(n byt.Size) float64 {
      return float64(n) + (rand.Float64()-0.5)*2*noise*float64(n) }\<close>
\<close>

definition noise :: real where
  "noise = 0.3"

definition randNoise :: "Size \<Rightarrow> real \<Rightarrow> real" where
  "randNoise n r = float64 n + (r - 0.5) * 2 * noise * float64 n"

text \<open>
  \<^verbatim>\<open>func randMargin(n int64, margin float64) float64 {
      return (mathrand.Float64() - 0.5) * 2 * margin * float64(n) }\<close>

  The caller adds the truncated offset to the nominal speed:
  \<^verbatim>\<open>curUpSpeedByte = baseUpSpeedByte + int64(randMargin(baseUpSpeedByte, upMargin))\<close>.
\<close>

definition randMargin :: "64 word \<Rightarrow> real \<Rightarrow> real \<Rightarrow> real" where
  "randMargin n margin r = (r - 0.5) * 2 * margin * float64 n"

definition withMargin :: "64 word \<Rightarrow> real \<Rightarrow> real \<Rightarrow> 64 word" where
  "withMargin n margin r = n + to_int64 (randMargin n margin r)"

section \<open>The tracker interface\<close>

text \<open>
  The types of \<^verbatim>\<open>github.com/anacrolix/torrent/tracker\<close> that the program uses. The
  events are numbered \<^verbatim>\<open>None = 0, Completed, Started, Stopped\<close>; the zero value of an
  event is \<^verbatim>\<open>None\<close>.
\<close>

datatype AnnounceEvent = None_event | Completed | Started | Stopped

record AnnounceRequest =
  InfoHash :: "8 word list"
  PeerId :: "8 word list"
  Downloaded :: "64 word"
  Left :: "64 word"
  Uploaded :: "64 word"
  Event :: AnnounceEvent
  NumWant :: "32 word"

record AnnounceResponse =
  Interval :: "32 word"
  Leechers :: "32 word"
  Seeders :: "32 word"

text \<open>
  What one call \<^verbatim>\<open>resp, err := tracker.Announce(url, req)\<close> returns: \<open>err\<close> holds when
  \<^verbatim>\<open>err != nil\<close>.
\<close>

record announce_result =
  resp :: AnnounceResponse
  err :: bool

section \<open>Time\<close>

text \<open>
  A \<^verbatim>\<open>time.Time\<close> is the number of seconds since the zero time, so the zero
  \<^verbatim>\<open>time.Time\<close> is \<open>0\<close>. A \<^verbatim>\<open>time.Duration\<close> is an \<^verbatim>\<open>int64\<close> of nanoseconds.
  \<^verbatim>\<open>time.Since(t).Seconds()\<close> is the difference of the clock and \<open>t\<close>, kept within
  what a \<^verbatim>\<open>Duration\<close> holds. The clock values are arguments of the model.
\<close>

type_synonym Time = real
type_synonym Duration = "64 word"

definition IsZero :: "Time \<Rightarrow> bool" where
  "IsZero t = (t = 0)"

definition Second :: Duration where
  "Second = 1000000000"

definition Since_Seconds :: "Time \<Rightarrow> Time \<Rightarrow> real" where
  "Since_Seconds now t = max (- (2 ^ 63) / 10 ^ 9) (min ((2 ^ 63 - 1) / 10 ^ 9) (now - t))"

text \<open>\<^verbatim>\<open>time.Duration(resp.Interval) * time.Second\<close>, for the \<^verbatim>\<open>int32\<close> field.\<close>

definition interval_of :: "AnnounceResponse \<Rightarrow> Duration" where
  "interval_of r = scast (Interval r) * Second"

section \<open>The announce engine (\<^verbatim>\<open>announce\<close> and \<^verbatim>\<open>main\<close> of the \<^verbatim>\<open>byt\<close> version)\<close>

text \<open>
  The package-level variables. \<open>size'\<close> is the variable \<^verbatim>\<open>size\<close>. The channel
  \<^verbatim>\<open>interval\<close> is \<^verbatim>\<open>nil\<close> or the channel of \<^verbatim>\<open>time.After(d)\<close>.
\<close>

datatype chan = nil | After Duration

record session =
  downSpeed :: Size
  upSpeed :: Size
  announceURL :: string
  hash :: "8 word list"
  peerID :: "8 word list"
  size' :: Size
  complete :: bool
  stall :: bool
  down :: Size
  up :: Size
  interval :: chan
  lastResp :: Time

definition retryInterval :: Duration where
  "retryInterval = 30 * Second"

text \<open>
  What the surroundings hand to one call of \<^verbatim>\<open>announce\<close>, in the order the call reads
  them: the clock of \<^verbatim>\<open>time.Since(lastResp)\<close>, the two draws of \<^verbatim>\<open>rand.Float64()\<close>,
  the result of \<^verbatim>\<open>tracker.Announce\<close>, and the clock of \<^verbatim>\<open>lastResp = time.Now()\<close>.
\<close>

record env =
  now_since :: Time
  rand_down :: real
  rand_up :: real
  result :: announce_result
  now_resp :: Time

text \<open>\<^verbatim>\<open>func min(a, b byt.Size) byt.Size { if a < b { return a }; return b }\<close>\<close>

definition min_Size :: "Size \<Rightarrow> Size \<Rightarrow> Size" where
  "min_Size a b = (if a <s b then a else b)"

text \<open>
  The first block of \<^verbatim>\<open>announce\<close>:
  \<^verbatim>\<open>if !lastResp.IsZero() && !stall {
      elapsed := time.Since(lastResp).Seconds()
      down = min(size, down+byt.Size(elapsed*randNoise(downSpeed)))
      if down == size && !complete { event = tracker.Completed; complete = true }
      up += byt.Size(elapsed * randNoise(upSpeed)) }\<close>
\<close>

definition accrue :: "session \<Rightarrow> AnnounceEvent \<Rightarrow> env \<Rightarrow> session \<times> AnnounceEvent" where
  "accrue s event e =
     (if \<not> IsZero (lastResp s) \<and> \<not> stall s then
        let elapsed = Since_Seconds (now_since e) (lastResp s);
            down1 = min_Size (size' s)
                      (down s + to_int64 (elapsed * randNoise (downSpeed s) (rand_down e)));
            hit = (down1 = size' s \<and> \<not> complete s);
            up1 = up s + to_int64 (elapsed * randNoise (upSpeed s) (rand_up e))
        in (s\<lparr>complete := (if hit then True else complete s), down := down1, up := up1\<rparr>,
            if hit then Completed else event)
      else (s, event))"

definition request :: "session \<Rightarrow> AnnounceEvent \<Rightarrow> AnnounceRequest" where
  "request s event =
     \<lparr>InfoHash = hash s, PeerId = peerID s, Downloaded = down s,
      Left = size' s - down s, Uploaded = up s, Event = event, NumWant = - 1\<rparr>"

text \<open>
  \<^verbatim>\<open>announce\<close> returns the variables after the call and the request it has sent. The
  request goes out once per call.
\<close>

definition announce :: "session \<Rightarrow> AnnounceEvent \<Rightarrow> env \<Rightarrow> session \<times> AnnounceRequest" where
  "announce s0 event0 e =
     (let (s1, event) = accrue s0 event0 e;
          req = request s1 event;
          s2 = s1\<lparr>lastResp := now_resp e\<rparr>
      in if err (result e) then
           (if event = Stopped then (s2\<lparr>interval := nil\<rparr>, req)
            else (s2\<lparr>interval := After retryInterval\<rparr>, req))
         else if event = Stopped then (s2\<lparr>interval := nil\<rparr>, req)
         else (s2\<lparr>interval := After (interval_of (resp (result e)))\<rparr>, req))"

text \<open>
  The \<^verbatim>\<open>select\<close> loop of \<^verbatim>\<open>main\<close> receives from \<^verbatim>\<open>interval\<close> or from \<^verbatim>\<open>interrupt\<close>.
  The list gives what it receives, in order, each with what the announce it triggers will
  read. A \<^verbatim>\<open>nil\<close> channel never delivers, so a \<open>Timer\<close> is passed over while \<^verbatim>\<open>interval\<close>
  is \<^verbatim>\<open>nil\<close>. The result is the list of requests sent and whether \<^verbatim>\<open>main\<close> has returned.
\<close>

datatype signal = Timer env | Interrupt env

fun loop :: "session \<Rightarrow> signal list \<Rightarrow> AnnounceRequest list \<times> bool" where
  "loop s [] = ([], False)"
| "loop s (Timer e # rest) =
     (case interval s of
        nil \<Rightarrow> loop s rest
      | After d \<Rightarrow>
          (let (s', req) = announce s None_event e; (reqs, fin) = loop s' rest
           in (req # reqs, fin)))"
| "loop s (Interrupt e # rest) = (let (s', req) = announce s Stopped e in ([req], True))"

text \<open>
  The variables when \<^verbatim>\<open>main\<close> reaches \<^verbatim>\<open>announce(tracker.Started)\<close>: the speeds are
  the flags, \<^verbatim>\<open>size\<close> is the torrent's total length, the counters, the flags
  \<^verbatim>\<open>complete\<close> and \<^verbatim>\<open>stall\<close>, the channel and the time have their zero values. (The
  URL, the hash and the peer identifier are copied into the requests and read nowhere else;
  they are left empty.)
\<close>

definition initial :: "Size \<Rightarrow> Size \<Rightarrow> Size \<Rightarrow> session" where
  "initial dspeed uspeed length_total =
     \<lparr>downSpeed = dspeed, upSpeed = uspeed, announceURL = [], hash = [], peerID = [],
      size' = length_total, complete = False, stall = False, down = 0, up = 0,
      interval = nil, lastResp = 0\<rparr>"

text \<open>
  \<^verbatim>\<open>main\<close> from \<^verbatim>\<open>announce(tracker.Started)\<close> on: the first announce, the \<^verbatim>\<open>select\<close>
  loop, and after the interrupt \<^verbatim>\<open>announce(tracker.Stopped)\<close>, with which it returns.
\<close>

definition main_announce :: "session \<Rightarrow> env \<Rightarrow> signal list \<Rightarrow> AnnounceRequest list \<times> bool" where
  "main_announce s e0 sigs =
     (let (s1, req) = announce s Started e0; (reqs, fin) = loop s1 sigs
      in (req # reqs, fin))"

section \<open>The polling loop (\<^verbatim>\<open>main\<close> of \<^verbatim>\<open>main.go\<close>)\<close>

text \<open>
  The package-level variables of \<^verbatim>\<open>main.go\<close>. \<open>mi_Hash\<close> and \<open>mi_TotalLength\<close> are
  \<^verbatim>\<open>*mi.Info.Hash\<close> and \<^verbatim>\<open>mi.Info.TotalLength()\<close>, \<open>peerID'\<close> is \<^verbatim>\<open>peerID\<close>. A Go
  \<^verbatim>\<open>int\<close> has 64 bits.
\<close>

record globals =
  minSeeders :: "64 word"
  minLeechers :: "64 word"
  downMargin :: real
  upMargin :: real
  baseDownSpeedByte :: "64 word"
  baseUpSpeedByte :: "64 word"
  curDownSpeedByte :: "64 word"
  curUpSpeedByte :: "64 word"
  peerID' :: "8 word list"
  mi_Hash :: "8 word list"
  mi_TotalLength :: "64 word"
  prevRespTime :: Time
  started :: bool
  downloaded :: "64 word"
  uploaded :: "64 word"

text \<open>
  What the surroundings hand to one iteration of the loop: the clock of
  \<^verbatim>\<open>time.Since(prevRespTime)\<close>, the results of the successive calls of
  \<^verbatim>\<open>tracker.Announce\<close> (the started program makes one call, the startup loop as many as it
  needs), the clock of \<^verbatim>\<open>respTime = time.Now()\<close>, and the draws of
  \<^verbatim>\<open>mathrand.Float64()\<close> for the upload and the download speed.
\<close>

record tick_env =
  clock_since :: Time
  results :: "nat \<Rightarrow> announce_result"
  clock_resp :: Time
  draw_up :: real
  draw_down :: real

text \<open>
  \<^verbatim>\<open>var event tracker.AnnounceEvent
  if !started { event = tracker.Started }
  if started {
      sincePrevResp := time.Since(prevRespTime).Seconds()
      downloaded += int64(float64(curDownSpeedByte) * sincePrevResp)
      downloaded = int64(math.Min(float64(downloaded), float64(mi.Info.TotalLength())))
      uploaded += int64(float64(curUpSpeedByte) * sincePrevResp)
      if downloaded == mi.Info.TotalLength() { event = tracker.Completed } }\<close>
\<close>

definition advance :: "globals \<Rightarrow> tick_env \<Rightarrow> globals \<times> AnnounceEvent" where
  "advance g e =
     (if started g then
        let sincePrevResp = Since_Seconds (clock_since e) (prevRespTime g);
            d1 = downloaded g + to_int64 (float64 (curDownSpeedByte g) * sincePrevResp);
            d2 = to_int64 (min (float64 d1) (float64 (mi_TotalLength g)));
            u1 = uploaded g + to_int64 (float64 (curUpSpeedByte g) * sincePrevResp)
        in (g\<lparr>downloaded := d2, uploaded := u1\<rparr>,
            if d2 = mi_TotalLength g then Completed else None_event)
      else (g, Started))"

definition build_request :: "globals \<Rightarrow> AnnounceEvent \<Rightarrow> AnnounceRequest" where
  "build_request g event =
     \<lparr>InfoHash = mi_Hash g, PeerId = peerID' g, Downloaded = downloaded g,
      Left = mi_TotalLength g - downloaded g, Uploaded = uploaded g, Event = event,
      NumWant = - 1\<rparr>"

text \<open>
  The startup loop
  \<^verbatim>\<open>for { resp, err = tracker.Announce(mi.Announce, req)
        if err == nil { respTime = time.Now(); break }
        time.Sleep(10 * time.Second) }\<close>
  reads the results from the \<open>i\<close>-th on. It returns the response and the index of the call
  that succeeded; where no call succeeds it does not return.
\<close>

partial_function (option) startup :: "(nat \<Rightarrow> announce_result) \<Rightarrow> nat \<Rightarrow> (AnnounceResponse \<times> nat) option" where
  "startup rs i = (if \<not> err (rs i) then Some (resp (rs i), i) else startup rs (Suc i))"

declare startup.simps [code]

text \<open>
  \<^verbatim>\<open>if resp.Seeders < int32(minSeeders) || resp.Leechers < int32(minLeechers) {
      curDownSpeedByte = 0; curUpSpeedByte = 0
  } else {
      curUpSpeedByte = baseUpSpeedByte + int64(randMargin(baseUpSpeedByte, upMargin))
      if mi.Info.TotalLength()-downloaded > 0 {
          curDownSpeedByte = baseDownSpeedByte + int64(randMargin(baseDownSpeedByte, downMargin))
      } else { curDownSpeedByte = 0 } }\<close>

  \<^verbatim>\<open>int32(n)\<close> keeps the low 32 bits of \<open>n\<close>.
\<close>

definition set_speeds :: "globals \<Rightarrow> AnnounceResponse \<Rightarrow> real \<Rightarrow> real \<Rightarrow> globals" where
  "set_speeds g r ru rd =
     (if Seeders r <s ucast (minSeeders g) \<or> Leechers r <s ucast (minLeechers g) then
        g\<lparr>curDownSpeedByte := 0, curUpSpeedByte := 0\<rparr>
      else
        g\<lparr>curUpSpeedByte := withMargin (baseUpSpeedByte g) (upMargin g) ru,
          curDownSpeedByte :=
            (if 0 <s mi_TotalLength g - downloaded g
             then withMargin (baseDownSpeedByte g) (downMargin g) rd else 0)\<rparr>)"

text \<open>
  One iteration of \<^verbatim>\<open>for { ... }\<close>: the variables after it, the requests it has sent (the
  startup loop sends the same request at every attempt) and the time it sleeps at its end,
  \<^verbatim>\<open>time.Duration(resp.Interval) * time.Second\<close>. After a failed announce of the started
  program \<^verbatim>\<open>respTime\<close> still has its zero value and \<^verbatim>\<open>resp\<close> is what came with the error.
\<close>

definition iteration :: "globals \<Rightarrow> tick_env \<Rightarrow> (globals \<times> AnnounceRequest list \<times> Duration) option" where
  "iteration g0 e =
     (let (g1, event) = advance g0 e;
          req = build_request g1 event
      in if \<not> started g0 then
           (case startup (results e) 0 of
              None \<Rightarrow> None
            | Some (r, n) \<Rightarrow>
                Some ((set_speeds g1 r (draw_up e) (draw_down e))
                        \<lparr>prevRespTime := clock_resp e, started := True\<rparr>,
                      replicate (Suc n) req, interval_of r))
         else if err (results e 0) then
           Some (g1\<lparr>prevRespTime := 0, started := True\<rparr>, [req], interval_of (resp (results e 0)))
         else
           Some ((set_speeds g1 (resp (results e 0)) (draw_up e) (draw_down e))
                   \<lparr>prevRespTime := clock_resp e, started := True\<rparr>,
                 [req], interval_of (resp (results e 0))))"

text \<open>
  The loop never ends by itself; \<open>polling\<close> runs one iteration for each element of the list
  and gives the requests sent. \<open>None\<close>: an iteration did not return.
\<close>

fun polling :: "globals \<Rightarrow> tick_env list \<Rightarrow> AnnounceRequest list option" where
  "polling g [] = Some []"
| "polling g (e # es) =
     (case iteration g e of
        None \<Rightarrow> None
      | Some (g', reqs, d) \<Rightarrow>
          (case polling g' es of None \<Rightarrow> None | Some later \<Rightarrow> Some (reqs @ later)))"

section \<open>Package \<^verbatim>\<open>byt\<close>: formatting and parsing byte quantities\<close>

subsection \<open>Units and tables\<close>

definition Byt :: Size where "Byt = 1"
definition Kibibyte :: Size where "Kibibyte = 2 ^ 10"
definition Mebibyte :: Size where "Mebibyte = 2 ^ 20"
definition Gibibyte :: Size where "Gibibyte = 2 ^ 30"
definition Tebibyte :: Size where "Tebibyte = 2 ^ 40"
definition Pebibyte :: Size where "Pebibyte = 2 ^ 50"
definition Exbibyte :: Size where "Exbibyte = 2 ^ 60"
definition Kilobyte :: Size where "Kilobyte = 10 ^ 3"
definition Megabyte :: Size where "Megabyte = 10 ^ 6"
definition Gigabyte :: Size where "Gigabyte = 10 ^ 9"
definition Terabyte :: Size where "Terabyte = 10 ^ 12"
definition Petabyte :: Size where "Petabyte = 10 ^ 15"
definition Exabyte :: Size where "Exabyte = 10 ^ 18"

lemmas unit_defs =
  Byt_def Kibibyte_def Mebibyte_def Gibibyte_def Tebibyte_def Pebibyte_def Exbibyte_def
  Kilobyte_def Megabyte_def Gigabyte_def Terabyte_def Petabyte_def Exabyte_def

text \<open>
  \<^verbatim>\<open>var symbols = map[Size]string{...}\<close>; reading a key that is absent gives the empty
  string.
\<close>

definition symbols :: "Size \<Rightarrow> string" where
  "symbols u =
     (case map_of
        [(Byt, ''B''),
         (Kibibyte, ''KiB''), (Mebibyte, ''MiB''), (Gibibyte, ''GiB''),
         (Tebibyte, ''TiB''), (Pebibyte, ''PiB''), (Exbibyte, ''EiB''),
         (Kilobyte, ''KB''), (Megabyte, ''MB''), (Gigabyte, ''GB''),
         (Terabyte, ''TB''), (Petabyte, ''PB''), (Exabyte, ''EB'')] u of
        None \<Rightarrow> [] | Some symbol \<Rightarrow> symbol)"

text \<open>
  \<^verbatim>\<open>var suffixes = map[string]Size{...}\<close>, as the list of its entries. \<^verbatim>\<open>parseCLI\<close> ranges
  over the map, and Go does not fix the order of that iteration: \<open>parseCLI\<close> below takes the
  order as an argument, any list with the entries of \<open>suffixes\<close>.
\<close>

definition suffixes :: "(string \<times> Size) list" where
  "suffixes =
     [(''k'', Kibibyte), (''m'', Mebibyte), (''g'', Gibibyte),
      (''t'', Tebibyte), (''p'', Pebibyte), (''e'', Exbibyte),
      (''kb'', Kilobyte), (''mb'', Megabyte), (''gb'', Gigabyte),
      (''tb'', Terabyte), (''pb'', Petabyte), (''eb'', Exabyte)]"

subsection \<open>Formatting\<close>

text \<open>Go's \<^verbatim>\<open>/\<close> on \<^verbatim>\<open>int64\<close> truncates towards zero; dividing by zero panics.\<close>

datatype panic = DivideByZero

definition sdiv64 :: "64 word \<Rightarrow> 64 word \<Rightarrow> 64 word" where
  "sdiv64 a b = word_of_int (sint a sdiv sint b)"

text \<open>
  The loop of \<^verbatim>\<open>format\<close>, \<^verbatim>\<open>for ss >= un { ss /= un; u *= un }\<close>, from the values
  \<open>ss\<close> and \<open>u\<close> of its variables. It does not return for \<open>un = 1\<close> and \<open>ss \<ge> 1\<close>.
\<close>

partial_function (option) format_loop :: "Size \<Rightarrow> Size \<Rightarrow> Size \<Rightarrow> (panic + Size \<times> Size) option" where
  "format_loop un ss u =
     (if un \<le>s ss then
        (if un = 0 then Some (Inl DivideByZero) else format_loop un (sdiv64 ss un) (u * un))
      else Some (Inr (ss, u)))"

declare format_loop.simps [code]

text \<open>
  \<^verbatim>\<open>func (s Size) format(un Size) (float64, string) {
      u, ss := Byt, s
      for ss >= un { ss /= un; u *= un }
      return float64(s) / float64(u), symbols[u] }\<close>
\<close>

definition format :: "Size \<Rightarrow> Size \<Rightarrow> (panic + real \<times> string) option" where
  "format s un =
     (case format_loop un s Byt of
        None \<Rightarrow> None
      | Some (Inl p) \<Rightarrow> Some (Inl p)
      | Some (Inr (ss, u)) \<Rightarrow> Some (Inr (float64 s / float64 u, symbols u)))"

record formatter =
  bs :: Size
  un :: Size

definition Binary :: "Size \<Rightarrow> formatter" where
  "Binary s = \<lparr>bs = s, un = Kibibyte\<rparr>"

definition Decimal :: "Size \<Rightarrow> formatter" where
  "Decimal s = \<lparr>bs = s, un = Kilobyte\<rparr>"

text \<open>
  \<^verbatim>\<open>strconv.AppendFloat(b, n, 'f', prec, 64)\<close> for a precision \<open>prec \<ge> 0\<close>: the decimal
  expansion of \<open>n\<close> with \<open>prec\<close> digits after the point, rounded to the nearest, a tie to
  the even digit.
\<close>

definition round_half_even :: "real \<Rightarrow> int" where
  "round_half_even x =
     (let f = \<lfloor>x\<rfloor>; d = x - of_int f
      in if d < 1 / 2 then f else if 1 / 2 < d then f + 1 else if even f then f else f + 1)"

fun digits :: "nat \<Rightarrow> string" where
  "digits n = (if n < 10 then [''0123456789'' ! n] else digits (n div 10) @ [''0123456789'' ! (n mod 10)])"

declare digits.simps [simp del]

definition AppendFloat_f :: "real \<Rightarrow> nat \<Rightarrow> string" where
  "AppendFloat_f x prec =
     (let m = nat (round_half_even (\<bar>x\<bar> * 10 ^ prec));
          ip = digits (m div 10 ^ prec);
          fp = digits (m mod 10 ^ prec)
      in (if x < 0 then ''-'' else []) @ ip @
         (if prec = 0 then [] else ''.'' @ replicate (prec - length fp) (CHR ''0'') @ fp))"

text \<open>
  \<^verbatim>\<open>func (f *formatter) Format(s fmt.State, verb rune)\<close> for a verb that carries a
  precision, as \<^verbatim>\<open>"%.2f"\<close> does; the result is what it writes. Without a precision the
  function asks \<^verbatim>\<open>strconv\<close> for the shortest digits that identify the \<^verbatim>\<open>float64\<close>, which
  depends on the binary representation and is not embedded.
\<close>

definition Format :: "formatter \<Rightarrow> nat \<Rightarrow> (panic + string) option" where
  "Format f prec =
     (case format (bs f) (un f) of
        None \<Rightarrow> None
      | Some (Inl p) \<Rightarrow> Some (Inl p)
      | Some (Inr (n, symbol)) \<Rightarrow> Some (Inr (AppendFloat_f n prec @ '' '' @ symbol)))"

subsection \<open>Parsing\<close>

text \<open>\<^verbatim>\<open>strings.ToLower\<close>, \<^verbatim>\<open>strings.HasSuffix\<close> and \<^verbatim>\<open>strings.TrimSuffix\<close> on bytes of ASCII.\<close>

definition lower :: "char \<Rightarrow> char" where
  "lower c =
     (case map_of (zip ''ABCDEFGHIJKLMNOPQRSTUVWXYZ'' ''abcdefghijklmnopqrstuvwxyz'') c of
        None \<Rightarrow> c | Some d \<Rightarrow> d)"

definition ToLower :: "string \<Rightarrow> string" where
  "ToLower s = map lower s"

definition HasSuffix :: "string \<Rightarrow> string \<Rightarrow> bool" where
  "HasSuffix s suffix =
     (length suffix \<le> length s \<and> drop (length s - length suffix) s = suffix)"

definition TrimSuffix :: "string \<Rightarrow> string \<Rightarrow> string" where
  "TrimSuffix s suffix = (if HasSuffix s suffix then take (length s - length suffix) s else s)"

text \<open>
  \<^verbatim>\<open>strconv.ParseFloat(s, 64)\<close> on decimal input: an optional sign, digits with at most
  one point and at least one digit, an optional exponent of \<open>e\<close> or \<open>E\<close>, an optional sign
  and at least one digit; or, in any case of letters, \<open>inf\<close> and \<open>infinity\<close> with an
  optional sign, and \<open>nan\<close>. Anything else is a syntax error, a magnitude that rounds to
  infinity is a range error. (The hexadecimal mantissas and digit separators of later Go
  releases are not covered.)
\<close>

datatype NumError = ErrSyntax | ErrRange

datatype float64_value = Finite real | Inf bool | NaN

definition is_digit :: "char \<Rightarrow> bool" where
  "is_digit c = (c \<in> set ''0123456789'')"

definition digit_value :: "char \<Rightarrow> nat" where
  "digit_value c =
     (case map_of (zip ''0123456789'' [0, 1, 2, 3, 4, 5, 6, 7, 8, 9]) c of
        None \<Rightarrow> 0 | Some d \<Rightarrow> d)"

definition digits_value :: "string \<Rightarrow> nat" where
  "digits_value ds = foldl (\<lambda>a c. 10 * a + digit_value c) 0 ds"

definition strip_sign :: "string \<Rightarrow> bool \<times> string" where
  "strip_sign s =
     (case s of
        [] \<Rightarrow> (False, [])
      | c # t \<Rightarrow> if c = CHR ''+'' then (False, t) else if c = CHR ''-'' then (True, t) else (False, s))"

definition special :: "string \<Rightarrow> float64_value option" where
  "special s =
     (if ToLower s = ''nan'' then Some NaN
      else let (neg, t) = strip_sign s
           in if ToLower t = ''inf'' \<or> ToLower t = ''infinity'' then Some (Inf neg) else None)"

definition exponent :: "string \<Rightarrow> int option" where
  "exponent s =
     (case s of
        [] \<Rightarrow> Some 0
      | c # t \<Rightarrow>
          if c = CHR ''e'' \<or> c = CHR ''E'' then
            (let (neg, ds) = strip_sign t
             in if ds = [] then None
                else if list_all is_digit ds
                then Some ((if neg then - 1 else 1) * int (digits_value ds))
                else None)
          else None)"

definition power10 :: "int \<Rightarrow> real" where
  "power10 k = (if 0 \<le> k then 10 ^ nat k else 1 / 10 ^ nat (- k))"

definition ParseFloat :: "string \<Rightarrow> NumError + float64_value" where
  "ParseFloat s =
     (case special s of
        Some v \<Rightarrow> Inr v
      | None \<Rightarrow>
          (let (neg, s1) = strip_sign s;
               ip = takeWhile is_digit s1;
               s2 = dropWhile is_digit s1;
               point = (case s2 of [] \<Rightarrow> False | c # t \<Rightarrow> c = CHR ''.'');
               fp = (if point then takeWhile is_digit (tl s2) else []);
               s3 = (if point then dropWhile is_digit (tl s2) else s2)
           in if ip = [] \<and> fp = [] then Inl ErrSyntax
              else
                (case exponent s3 of
                   None \<Rightarrow> Inl ErrSyntax
                 | Some ex \<Rightarrow>
                     (let v = (if neg then - 1 else 1) * real (digits_value (ip @ fp))
                                * power10 (ex - int (length fp))
                      in if 2 ^ 1024 - 2 ^ 970 \<le> \<bar>v\<bar> then Inl ErrRange
                         else Inr (Finite v)))))"

text \<open>
  \<^verbatim>\<open>func parseFloat(s string) (float64, error) {
      x, err := strconv.ParseFloat(s, 64)
      if err != nil || math.IsInf(x, 0) || math.IsNaN(x) {
          return 0, fmt.Errorf("cannot parse %q", s) }
      return x, nil }\<close>
\<close>

datatype error = CannotParse string

definition parseFloat :: "string \<Rightarrow> error + real" where
  "parseFloat s =
     (case ParseFloat s of
        Inl e \<Rightarrow> Inl (CannotParse s)
      | Inr (Finite x) \<Rightarrow> Inr x
      | Inr (Inf neg) \<Rightarrow> Inl (CannotParse s)
      | Inr NaN \<Rightarrow> Inl (CannotParse s))"

text \<open>
  \<^verbatim>\<open>func parseCLI(s string) (Size, error) {
      s = strings.ToLower(s)
      for suffix, size := range suffixes {
          if strings.HasSuffix(s, suffix) {
              x, err := parseFloat(strings.TrimSuffix(s, suffix))
              if err != nil { return 0, err }
              return Size(x * float64(size)), nil } }
      x, err := strconv.ParseFloat(s, 64)
      if err != nil || math.IsInf(x, 0) || math.IsNaN(x) {
          return 0, fmt.Errorf("cannot parse %q", s) }
      return Size(x), nil }\<close>

  \<open>range_suffixes\<close> is the \<^verbatim>\<open>for\<close> loop over the entries in the order given; \<open>None\<close>:
  the loop ended without a \<^verbatim>\<open>return\<close>.
\<close>

fun range_suffixes :: "(string \<times> Size) list \<Rightarrow> string \<Rightarrow> (error + Size) option" where
  "range_suffixes [] s = None"
| "range_suffixes ((suffix, sz) # rest) s =
     (if HasSuffix s suffix then
        (case parseFloat (TrimSuffix s suffix) of
           Inl e \<Rightarrow> Some (Inl e)
         | Inr x \<Rightarrow> Some (Inr (to_int64 (x * float64 sz))))
      else range_suffixes rest s)"

definition parseCLI :: "(string \<times> Size) list \<Rightarrow> string \<Rightarrow> error + Size" where
  "parseCLI order s0 =
     (let s = ToLower s0
      in case range_suffixes order s of
           Some r \<Rightarrow> r
         | None \<Rightarrow>
             (case parseFloat s of Inl e \<Rightarrow> Inl e | Inr x \<Rightarrow> Inr (to_int64 x)))"

section \<open>Predicates used in the statements\<close>







text \<open>The number of requests of a run that carry the event \<^verbatim>\<open>Completed\<close>.\<close>

definition count_Completed :: "AnnounceRequest list \<Rightarrow> nat" where
  "count_Completed reqs = length (filter (\<lambda>r. Event r = Completed) reqs)"

text \<open>
  The only key of \<open>suffixes\<close> that can end a string: its last character, or its last two
  where the last is \<open>b\<close>.
\<close>

definition suffix_key :: "string \<Rightarrow> string" where
  "suffix_key s = (if last s = CHR ''b'' then [last (butlast s), CHR ''b''] else [last s])"

text \<open>
  The string parses, to a size within one unit of the two-decimal display of \<open>n\<close> in
  the unit given (a hundredth of the unit).
\<close>

definition parses_within :: "(string \<times> Size) list \<Rightarrow> string \<Rightarrow> Size \<Rightarrow> Size \<Rightarrow> bool" where
  "parses_within ord str n unit =
     (case parseCLI ord str of
        Inl e \<Rightarrow> False
      | Inr v \<Rightarrow> \<bar>float64 v - float64 n\<bar> \<le> float64 unit / 100)"

section \<open>Sample runs\<close>

text \<open>
  A tracker reply with 20 seeders and 20 leechers and a given interval, a failed call, and
  what an announce reads at clock \<open>t\<close> when both draws are \<open>1/2\<close> (no noise).
  \<open>scenario\<close> is the session of 10,000,000,000 bytes at 5,000,000 B/s down and
  2,000,000 B/s up; \<open>small_globals\<close> are variables of the polling loop for a torrent of
  1000 bytes at 100 B/s down and 40 B/s up.
\<close>

definition reply_ok :: "32 word \<Rightarrow> announce_result" where
  "reply_ok i = \<lparr>resp = \<lparr>Interval = i, Leechers = 20, Seeders = 20\<rparr>, err = False\<rparr>"

definition reply_failed :: announce_result where
  "reply_failed = \<lparr>resp = \<lparr>Interval = 0, Leechers = 0, Seeders = 0\<rparr>, err = True\<rparr>"

definition at_time :: "Time \<Rightarrow> announce_result \<Rightarrow> env" where
  "at_time t r = \<lparr>now_since = t, rand_down = 1 / 2, rand_up = 1 / 2, result = r, now_resp = t\<rparr>"

definition scenario :: session where
  "scenario = initial 5000000 2000000 10000000000"

definition tick_at :: "Time \<Rightarrow> (nat \<Rightarrow> announce_result) \<Rightarrow> tick_env" where
  "tick_at t rs = \<lparr>clock_since = t, results = rs, clock_resp = t, draw_up = 1 / 2, draw_down = 1 / 2\<rparr>"

definition small_globals :: globals where
  "small_globals =
     \<lparr>minSeeders = 15, minLeechers = 15, downMargin = 1 / 4, upMargin = 1 / 4,
      baseDownSpeedByte = 100, baseUpSpeedByte = 40, curDownSpeedByte = 0, curUpSpeedByte = 0,
      peerID' = [], mi_Hash = [], mi_TotalLength = 1000, prevRespTime = 0, started = False,
      downloaded = 0, uploaded = 0\<rparr>"

text \<open>
  The sample session and the sample polling variables after their first response at clock
  100, and a session of \<open>2^63 - 1\<close> bytes at \<open>2^62\<close> B/s in both directions (the flags
  \<^verbatim>\<open>-down 4E -up 4E\<close>) one second after it has started.
\<close>

definition running_session :: session where
  "running_session = scenario\<lparr>lastResp := 100, interval := After (1000 * Second)\<rparr>"




section \<open>Unfolding the definitions on concrete input\<close>

lemmas sample_defs =
  reply_ok_def reply_failed_def at_time_def scenario_def initial_def tick_at_def small_globals_def

lemmas engine_defs =
  main_announce_def announce_def accrue_def request_def IsZero_def Since_Seconds_def
  randNoise_def noise_def float64_def to_int64_def fits_int64_def trunc_def min_Size_def
  interval_of_def retryInterval_def Second_def Let_def word_sless_alt word_sle_eq

lemmas polling_defs =
  iteration_def advance_def build_request_def set_speeds_def startup.simps withMargin_def
  randMargin_def Since_Seconds_def float64_def to_int64_def fits_int64_def trunc_def
  interval_of_def Second_def Let_def word_sless_alt word_sle_eq

lemmas parse_defs =
  ParseFloat_def special_def ToLower_def lower_def strip_sign_def is_digit_def digit_value_def
  digits_value_def exponent_def power10_def Let_def

lemmas convert_defs = to_int64_def fits_int64_def trunc_def float64_def unit_defs

lemmas suffix_defs = suffixes_def HasSuffix_def TrimSuffix_def

section \<open>Properties of the conversions\<close>












section \<open>Properties of the speed noise\<close>






section \<open>The bytes left in a request\<close>






lemma announce_request: "snd (announce s ev e) = request (fst (accrue s ev e)) (snd (accrue s ev e))"
  by (simp add: announce_def Let_def split: prod.splits)


lemma loop_Timer:
  "interval s = After d \<Longrightarrow>
   fst (loop s (Timer e # rest)) =
     snd (announce s None_event e) # fst (loop (fst (announce s None_event e)) rest)"
  by (simp split: prod.splits)

lemma loop_Timer_nil: "interval s = nil \<Longrightarrow> loop s (Timer e # rest) = loop s rest"
  by simp

lemma loop_Interrupt: "loop s (Interrupt e # rest) = ([snd (announce s Stopped e)], True)"
  by (simp split: prod.splits)











section \<open>Package \<^verbatim>\<open>byt\<close>: properties\<close>

subsection \<open>The order of the iteration over \<open>suffixes\<close>\<close>

lemma HasSuffix_append: "HasSuffix s k \<longleftrightarrow> (\<exists>p. s = p @ k)"
proof
  assume "HasSuffix s k"
  then have "s = take (length s - length k) s @ k"
    by (metis HasSuffix_def append_take_drop_id)
  then show "\<exists>p. s = p @ k" ..
next
  assume "\<exists>p. s = p @ k"
  then show "HasSuffix s k" by (auto simp: HasSuffix_def)
qed

lemma suffix_key:
  assumes "(k, v) \<in> set suffixes" "HasSuffix s k"
  shows "k = suffix_key s"
proof -
  obtain p where "s = p @ k" using assms(2) HasSuffix_append by blast
  then show ?thesis
    using assms(1) by (auto simp: suffixes_def suffix_key_def butlast_append)
qed
lemma suffixes_functional:
  assumes "(k, v) \<in> set suffixes" "(k, w) \<in> set suffixes"
  shows "v = w"
proof -
  have "distinct (map fst suffixes)" by (simp add: suffixes_def)
  then show ?thesis using assms by (metis map_of_is_SomeI option.inject)
qed
lemma suffix_unique:
  assumes "p \<in> set suffixes" "q \<in> set suffixes" "HasSuffix s (fst p)" "HasSuffix s (fst q)"
  shows "p = q"
proof -
  obtain k v where p: "p = (k, v)" by (cases p)
  obtain l w where q: "q = (l, w)" by (cases q)
  have "k = suffix_key s" "l = suffix_key s"
    using suffix_key [of k v s] suffix_key [of l w s] assms p q by simp_all
  then show ?thesis
    using suffixes_functional [of k v w] assms(1,2) p q by simp
qed
lemma range_suffixes_find:
  "range_suffixes ord s =
     (case find (\<lambda>p. HasSuffix s (fst p)) ord of
        None \<Rightarrow> None
      | Some p \<Rightarrow>
          Some (case parseFloat (TrimSuffix s (fst p)) of
                  Inl e \<Rightarrow> Inl e | Inr x \<Rightarrow> Inr (to_int64 (x * float64 (snd p)))))"
proof (induction ord)
  case Nil
  show ?case by simp
next
  case (Cons a ord)
  obtain k v where a: "a = (k, v)" by (cases a)
  show ?case
  proof (cases "HasSuffix s k")
    case True
    then show ?thesis unfolding a by (cases "parseFloat (TrimSuffix s k)") simp_all
  next
    case False
    then show ?thesis unfolding a using Cons.IH by simp
  qed
qed

lemma find_unique:
  assumes "p \<in> set xs" "P p" "\<And>q. q \<in> set xs \<Longrightarrow> P q \<Longrightarrow> q = p"
  shows "find P xs = Some p"
  using assms
proof (induction xs)
  case Nil
  then show ?case by simp
next
  case (Cons a xs)
  show ?case
  proof (cases "P a")
    case True
    have "a = p" by (rule Cons.prems(3)) (simp_all add: True)
    with True show ?thesis by simp
  next
    case False
    with Cons.prems(1,2) have m: "p \<in> set xs" by auto
    have "find P xs = Some p"
      by (rule Cons.IH [OF m Cons.prems(2)]) (rule Cons.prems(3), simp_all)
    with False show ?thesis by simp
  qed
qed

lemma range_suffixes_order:
  assumes "set ord = set suffixes"
  shows "range_suffixes ord s = range_suffixes suffixes s"
proof -
  let ?P = "\<lambda>p. HasSuffix s (fst p)"
  have "find ?P ord = find ?P suffixes"
  proof (cases "\<exists>p\<in>set suffixes. ?P p")
    case True
    then obtain p where p: "p \<in> set suffixes" "?P p" by blast
    have u: "\<And>q. q \<in> set suffixes \<Longrightarrow> ?P q \<Longrightarrow> q = p"
      using suffix_unique [OF _ p(1) _ p(2)] by blast
    have "find ?P suffixes = Some p"
    proof (rule find_unique [of p suffixes ?P])
      show "p \<in> set suffixes" by (rule p(1))
      show "?P p" by (rule p(2))
      show "\<And>q. q \<in> set suffixes \<Longrightarrow> ?P q \<Longrightarrow> q = p" by (rule u)
    qed
    moreover have "find ?P ord = Some p"
    proof (rule find_unique [of p ord ?P])
      show "p \<in> set ord" using p(1) assms by blast
      show "?P p" by (rule p(2))
      show "\<And>q. q \<in> set ord \<Longrightarrow> ?P q \<Longrightarrow> q = p" using u assms by blast
    qed
    ultimately show ?thesis by simp
  next
    case False
    then have "find ?P suffixes = None" "find ?P ord = None"
      using assms by (auto simp: find_None_iff)
    then show ?thesis by simp
  qed
  then show ?thesis by (simp add: range_suffixes_find)
qed

lemma parseCLI_order:
  "set ord = set suffixes \<Longrightarrow> parseCLI ord s = parseCLI suffixes s"
  using range_suffixes_order [of ord "ToLower s"] by (simp add: parseCLI_def)

lemma range_suffixes_miss:
  "list_all (\<lambda>p. \<not> HasSuffix s (fst p)) ord \<Longrightarrow> range_suffixes ord s = None"
  by (induction ord) auto

lemma parseCLI_no_suffix:
  assumes "list_all (\<lambda>p. \<not> HasSuffix (ToLower s) (fst p)) ord"
  shows "parseCLI ord s =
    (case parseFloat (ToLower s) of Inl e \<Rightarrow> Inl e | Inr x \<Rightarrow> Inr (to_int64 x))"
  using range_suffixes_miss [OF assms] by (simp add: parseCLI_def)

subsection \<open>Evaluating the formatter\<close>

lemma format_loop_values:
  "format_loop Kibibyte 0 Byt = Some (Inr (0, Byt))"
  "format_loop Kibibyte 1023 Byt = Some (Inr (1023, Byt))"
  "format_loop Kibibyte 1024 Byt = Some (Inr (1, Kibibyte))"
  "format_loop Kibibyte 1048576 Byt = Some (Inr (1, Mebibyte))"
  "format_loop Kibibyte 5000000000 Byt = Some (Inr (4, Gibibyte))"
  "format_loop Kilobyte 1000 Byt = Some (Inr (1, Kilobyte))"
  by (simp_all add: format_loop.simps sdiv64_def signed_divide_int_def unit_defs word_sle_eq)

lemma AppendFloat_f_values:
  "AppendFloat_f (float64 0 / float64 Byt) 2 = ''0.00''"
  "AppendFloat_f (float64 1023 / float64 Byt) 2 = ''1023.00''"
  "AppendFloat_f (float64 1024 / float64 Kibibyte) 2 = ''1.00''"
  "AppendFloat_f (float64 1048576 / float64 Mebibyte) 2 = ''1.00''"
  "AppendFloat_f (float64 5000000000 / float64 Gibibyte) 2 = ''4.66''"
  "AppendFloat_f (float64 1000 / float64 Kilobyte) 2 = ''1.00''"
  by (simp_all add: AppendFloat_f_def round_half_even_def digits.simps float64_def unit_defs Let_def)

lemma symbols_values:
  "symbols Byt = ''B''" "symbols Kibibyte = ''KiB''" "symbols Mebibyte = ''MiB''"
  "symbols Gibibyte = ''GiB''" "symbols Kilobyte = ''KB''"
  by (simp_all add: symbols_def unit_defs)

lemma Format_values:
  "Format (Binary 0) 2 = Some (Inr ''0.00 B'')"
  "Format (Binary 1023) 2 = Some (Inr ''1023.00 B'')"
  "Format (Binary 1024) 2 = Some (Inr ''1.00 KiB'')"
  "Format (Binary 1048576) 2 = Some (Inr ''1.00 MiB'')"
  "Format (Binary 5000000000) 2 = Some (Inr ''4.66 GiB'')"
  "Format (Decimal 1000) 2 = Some (Inr ''1.00 KB'')"
  by (simp_all add: Format_def format_def Binary_def Decimal_def format_loop_values
        AppendFloat_f_values symbols_values)

subsection \<open>Evaluating the parser\<close>

lemma parseCLI_values:
  "parseCLI suffixes ''5M'' = Inr (5 * 1024 * 1024)"
  "parseCLI suffixes ''2MB'' = Inr (2 * 1000 * 1000)"
  "parseCLI suffixes ''4096'' = Inr 4096"
  "parseCLI suffixes ''notanumber'' = Inl (CannotParse ''notanumber'')"
  by (simp_all add: parseCLI_def parseFloat_def parse_defs convert_defs suffix_defs)

lemma parseCLI_formatted:
  "parseCLI suffixes ''0.00 B'' = Inl (CannotParse ''0.00 b'')"
  "parseCLI suffixes ''1023.00 B'' = Inl (CannotParse ''1023.00 b'')"
  "parseCLI suffixes ''1.00 KiB'' = Inl (CannotParse ''1.00 kib'')"
  "parseCLI suffixes ''1.00 MiB'' = Inl (CannotParse ''1.00 mib'')"
  "parseCLI suffixes ''4.66 GiB'' = Inl (CannotParse ''4.66 gib'')"
  by (simp_all add: parseCLI_def parseFloat_def parse_defs convert_defs suffix_defs)

lemma parseCLI_rewritten:
  "parseCLI suffixes ''0.00'' = Inr 0"
  "parseCLI suffixes ''1023.00'' = Inr 1023"
  "parseCLI suffixes ''1.00K'' = Inr 1024"
  "parseCLI suffixes ''1.00M'' = Inr 1048576"
  "parseCLI suffixes ''4.66G'' = Inr 5003636899"
  by (simp_all add: parseCLI_def parseFloat_def parse_defs convert_defs suffix_defs)

text \<open>
  C8. At two decimals 1024 bytes are formatted as \<open>1.00 KiB\<close> with the binary units and 1000
  bytes as \<open>1.00 KB\<close> with the decimal ones. Whatever the order in which \<^verbatim>\<open>range\<close> visits
  the suffixes: \<open>5M\<close> parses to \<open>5 * 1024 * 1024\<close>, \<open>2MB\<close> to \<open>2 * 1000 * 1000\<close>, a
  string that ends in no suffix parses as the number of bytes that \<^verbatim>\<open>ParseFloat\<close> reads
  (as \<open>4096\<close> does), and \<open>notanumber\<close> is an error.
\<close>

theorem format_parse_examples:
  assumes "set ord = set suffixes"
  shows "Format (Binary 1024) 2 = Some (Inr ''1.00 KiB'')
       \<and> Format (Decimal 1000) 2 = Some (Inr ''1.00 KB'')
       \<and> parseCLI ord ''5M'' = Inr (5 * 1024 * 1024)
       \<and> parseCLI ord ''2MB'' = Inr (2 * 1000 * 1000)
       \<and> (list_all (\<lambda>p. \<not> HasSuffix (ToLower s) (fst p)) suffixes \<longrightarrow>
            parseCLI ord s =
              (case parseFloat (ToLower s) of Inl e \<Rightarrow> Inl e | Inr x \<Rightarrow> Inr (to_int64 x)))
       \<and> parseCLI ord ''4096'' = Inr 4096
       \<and> parseCLI ord ''notanumber'' = Inl (CannotParse ''notanumber'')"
proof -
  have "list_all (\<lambda>p. \<not> HasSuffix (ToLower s) (fst p)) suffixes \<Longrightarrow>
        list_all (\<lambda>p. \<not> HasSuffix (ToLower s) (fst p)) ord"
    using assms by (simp add: list_all_iff)
  then have "list_all (\<lambda>p. \<not> HasSuffix (ToLower s) (fst p)) suffixes \<longrightarrow>
      parseCLI ord s =
        (case parseFloat (ToLower s) of Inl e \<Rightarrow> Inl e | Inr x \<Rightarrow> Inr (to_int64 x))"
    using parseCLI_no_suffix [of s ord] by blast
  then show ?thesis
    by (simp add: parseCLI_order [OF assms] parseCLI_values Format_values)
qed

theorem format_parse_examples_witness:
  "set (rev suffixes) = set suffixes
   \<and> list_all (\<lambda>p. \<not> HasSuffix (ToLower ''4096'') (fst p)) suffixes
   \<and> Format (Binary 1024) 2 = Some (Inr ''1.00 KiB'')
   \<and> Format (Decimal 1000) 2 = Some (Inr ''1.00 KB'')
   \<and> parseCLI (rev suffixes) ''5M'' = Inr 5242880
   \<and> parseCLI (rev suffixes) ''2MB'' = Inr 2000000
   \<and> parseCLI (rev suffixes) ''4096'' = Inr 4096
   \<and> parseCLI (rev suffixes) ''notanumber'' = Inl (CannotParse ''notanumber'')"
proof -
  have h: "set (rev suffixes) = set suffixes" by simp
  have n: "list_all (\<lambda>p. \<not> HasSuffix (ToLower ''4096'') (fst p)) suffixes"
    by (simp add: ToLower_def lower_def suffix_defs)
  have p: "parseFloat (ToLower ''4096'') = Inr 4096"
    by (simp add: parseFloat_def parse_defs)
  show ?thesis
    using format_parse_examples [OF h, of "''4096''"] n p
    by (simp add: to_int64_def fits_int64_def trunc_def)
qed

text \<open>
  C9, as stated, fails: the parser rejects what the formatter writes. The formatter puts a
  space and the symbols \<open>B\<close>, \<open>KiB\<close>, \<open>MiB\<close>, \<open>GiB\<close> after the number; the parser reads a
  number directly followed by \<open>k\<close>, \<open>m\<close>, \<open>g\<close> ... or \<open>kb\<close>, \<open>mb\<close>, \<open>gb\<close> ...
\<close>

theorem formatted_sizes_rejected:
  "Format (Binary 1024) 2 = Some (Inr ''1.00 KiB'')
   \<and> parseCLI suffixes ''1.00 KiB'' = Inl (CannotParse ''1.00 kib'')"
  by (simp add: Format_values parseCLI_formatted)

text \<open>
  C9, amended. For each \<open>n\<close> of 0, 1023, 1024, 1048576 and 5000000000 the parser rejects the
  string that binary formatting at two decimals produces, in whatever order it visits the
  suffixes; the same number directly followed by the parser's binary suffix (none for bytes)
  parses to a size within one unit of the display precision of \<open>n\<close>.
\<close>

theorem format_then_parse:
  assumes "set ord = set suffixes"
  shows "Format (Binary 0) 2 = Some (Inr ''0.00 B'')
       \<and> parseCLI ord ''0.00 B'' = Inl (CannotParse ''0.00 b'')
       \<and> parses_within ord ''0.00'' 0 Byt
       \<and> Format (Binary 1023) 2 = Some (Inr ''1023.00 B'')
       \<and> parseCLI ord ''1023.00 B'' = Inl (CannotParse ''1023.00 b'')
       \<and> parses_within ord ''1023.00'' 1023 Byt
       \<and> Format (Binary 1024) 2 = Some (Inr ''1.00 KiB'')
       \<and> parseCLI ord ''1.00 KiB'' = Inl (CannotParse ''1.00 kib'')
       \<and> parses_within ord ''1.00K'' 1024 Kibibyte
       \<and> Format (Binary 1048576) 2 = Some (Inr ''1.00 MiB'')
       \<and> parseCLI ord ''1.00 MiB'' = Inl (CannotParse ''1.00 mib'')
       \<and> parses_within ord ''1.00M'' 1048576 Mebibyte
       \<and> Format (Binary 5000000000) 2 = Some (Inr ''4.66 GiB'')
       \<and> parseCLI ord ''4.66 GiB'' = Inl (CannotParse ''4.66 gib'')
       \<and> parses_within ord ''4.66G'' 5000000000 Gibibyte"
  by (simp add: parses_within_def parseCLI_order [OF assms] Format_values parseCLI_formatted
        parseCLI_rewritten float64_def unit_defs)

theorem format_then_parse_witness:
  "set (rev suffixes) = set suffixes
   \<and> Format (Binary 5000000000) 2 = Some (Inr ''4.66 GiB'')
   \<and> parseCLI (rev suffixes) ''4.66 GiB'' = Inl (CannotParse ''4.66 gib'')
   \<and> parses_within (rev suffixes) ''4.66G'' 5000000000 Gibibyte
   \<and> parseCLI (rev suffixes) ''0.00 B'' = Inl (CannotParse ''0.00 b'')
   \<and> parses_within (rev suffixes) ''0.00'' 0 Byt"
proof -
  have h: "set (rev suffixes) = set suffixes" by simp
  show ?thesis using format_then_parse [OF h] by simp
qed

section \<open>Progress on a tick\<close>







lemma accrue_idle:
  assumes "IsZero (lastResp s) \<or> stall s"
  shows "accrue s ev e = (s, ev)"
  using assms by (auto simp: accrue_def)









section \<open>The startup loop\<close>

lemma startup_Some:
  assumes "startup rs i = Some y"
  shows "i \<le> snd y \<and> \<not> err (rs (snd y)) \<and> fst y = resp (rs (snd y))"
proof (rule startup.raw_induct
    [where P = "\<lambda>rs i y. i \<le> snd y \<and> \<not> err (rs (snd y)) \<and> fst y = resp (rs (snd y))", OF _ assms])
  fix f :: "(nat \<Rightarrow> announce_result) \<Rightarrow> nat \<Rightarrow> (AnnounceResponse \<times> nat) option"
    and rs i y
  assume IH: "\<And>rs i y. f rs i = Some y \<Longrightarrow>
      i \<le> snd y \<and> \<not> err (rs (snd y)) \<and> fst y = resp (rs (snd y))"
    and step: "(if \<not> err (rs i) then Some (resp (rs i), i) else f rs (Suc i)) = Some y"
  show "i \<le> snd y \<and> \<not> err (rs (snd y)) \<and> fst y = resp (rs (snd y))"
  proof (cases "err (rs i)")
    case True
    then have "f rs (Suc i) = Some y" using step by simp
    then show ?thesis using IH [of rs "Suc i" y] by simp
  next
    case False
    then show ?thesis using step by auto
  qed
qed

lemma startup_never:
  assumes "\<And>k. err (rs k)"
  shows "startup rs i = None"
proof (cases "startup rs i")
  case None
  then show ?thesis .
next
  case (Some y)
  then have "\<not> err (rs (snd y))" using startup_Some by blast
  then show ?thesis using assms by simp
qed

lemma startup_first:
  assumes "\<not> err (rs n)" "\<And>k. i \<le> k \<Longrightarrow> k < n \<Longrightarrow> err (rs k)" "i \<le> n"
  shows "startup rs i = Some (resp (rs n), n)"
  using assms
proof (induction "n - i" arbitrary: i)
  case 0
  then have "i = n" by simp
  then show ?case using "0.prems"(1) by (simp add: startup.simps)
next
  case (Suc d)
  then have lt: "i < n" by simp
  then have e: "err (rs i)" using Suc.prems(2) by simp
  have "startup rs (Suc i) = Some (resp (rs n), n)"
    using Suc.hyps(1) [of "Suc i"] Suc.hyps(2) Suc.prems lt by simp
  then show ?case using e by (subst startup.simps) simp
qed

section \<open>Speeds after a response\<close>










section \<open>A failed announce\<close>

lemma announce_failed:
  assumes "err (result e)"
  shows "fst (announce s ev e) =
           (fst (accrue s ev e))
             \<lparr>lastResp := now_resp e,
              interval := (if snd (accrue s ev e) = Stopped then nil else After retryInterval)\<rparr>"
  using assms by (cases "accrue s ev e") (simp add: announce_def Let_def)

lemma accrue_event:
  "snd (accrue s ev e) = ev \<or> snd (accrue s ev e) = Completed"
  by (simp add: accrue_def Let_def)

text \<open>
  C5, as stated, fails for the timestamp: \<^verbatim>\<open>announce\<close> accrues progress before it calls
  the tracker and sets \<^verbatim>\<open>lastResp = time.Now()\<close> before it looks at the error. After a
  failed periodic announce at clock 1100 of the session that had its last response at clock
  100, the reference is 1100 and the counters hold the progress of the 1000 seconds.
\<close>

theorem failed_announce_moves_reference:
  "err (result (at_time 1100 reply_failed))
   \<and> lastResp running_session = 100
   \<and> lastResp (fst (announce running_session None_event (at_time 1100 reply_failed))) = 1100
   \<and> down running_session = 0
   \<and> down (fst (announce running_session None_event (at_time 1100 reply_failed))) = 5000000000
   \<and> up running_session = 0
   \<and> up (fst (announce running_session None_event (at_time 1100 reply_failed))) = 2000000000"
  by (simp add: running_session_def sample_defs engine_defs)

text \<open>
  C5, amended. On every transport failure during a periodic announce of the engine (the
  event sent is \<^verbatim>\<open>None\<close> or \<^verbatim>\<open>Completed\<close>), \<open>downloaded\<close>, \<open>uploaded\<close> and \<open>complete\<close>
  keep the values accrued at the start of that announce, which the request has carried; the
  elapsed-time reference \<^verbatim>\<open>lastResp\<close> is set to the time of the failed attempt; and the
  next tick is scheduled after the fixed retry interval of 30 seconds, whatever interval the
  tracker assigned before.
\<close>

theorem failed_periodic_announce:
  assumes "err (result e)"
  shows "down (fst (announce s None_event e)) = down (fst (accrue s None_event e))
       \<and> up (fst (announce s None_event e)) = up (fst (accrue s None_event e))
       \<and> complete (fst (announce s None_event e)) = complete (fst (accrue s None_event e))
       \<and> Downloaded (snd (announce s None_event e)) = down (fst (announce s None_event e))
       \<and> Uploaded (snd (announce s None_event e)) = up (fst (announce s None_event e))
       \<and> (Event (snd (announce s None_event e)) = None_event
            \<or> Event (snd (announce s None_event e)) = Completed)
       \<and> lastResp (fst (announce s None_event e)) = now_resp e
       \<and> interval (fst (announce s None_event e)) = After retryInterval
       \<and> retryInterval = 30 * Second"
proof -
  have ev: "snd (accrue s None_event e) \<noteq> Stopped"
    using accrue_event [of s None_event e] by auto
  show ?thesis
    using accrue_event [of s None_event e] ev
    by (simp add: announce_failed [OF assms] announce_request request_def retryInterval_def)
qed

theorem failed_periodic_announce_witness:
  "err (result (at_time 1100 reply_failed))
   \<and> interval running_session = After (1000 * Second)
   \<and> interval (fst (announce running_session None_event (at_time 1100 reply_failed)))
       = After (30 * Second)
   \<and> lastResp (fst (announce running_session None_event (at_time 1100 reply_failed))) = 1100
   \<and> down (fst (announce running_session None_event (at_time 1100 reply_failed))) = 5000000000
   \<and> up (fst (announce running_session None_event (at_time 1100 reply_failed))) = 2000000000"
proof -
  have h: "err (result (at_time 1100 reply_failed))" by (simp add: sample_defs)
  have a: "down (fst (accrue running_session None_event (at_time 1100 reply_failed))) = 5000000000"
    "up (fst (accrue running_session None_event (at_time 1100 reply_failed))) = 2000000000"
    by (simp_all add: running_session_def sample_defs engine_defs)
  have i: "interval running_session = After (1000 * Second)" "now_resp (at_time 1100 reply_failed) = 1100"
    by (simp_all add: running_session_def sample_defs)
  show ?thesis
    using failed_periodic_announce [OF h, of running_session] h a i by simp
qed

section \<open>The events of a run\<close>

lemma accrue_complete:
  assumes "complete s"
  shows "complete (fst (accrue s ev e))" and "snd (accrue s ev e) = ev"
  using assms by (simp_all add: accrue_def Let_def)

lemma accrue_Completed:
  assumes "ev \<noteq> Completed" "snd (accrue s ev e) = Completed"
  shows "\<not> complete s" and "complete (fst (accrue s ev e))"
    and "down (fst (accrue s ev e)) = size' s"
  using assms by (auto simp: accrue_def Let_def split: if_splits)

lemma announce_complete: "complete (fst (announce s ev e)) = complete (fst (accrue s ev e))"
  by (cases "accrue s ev e") (simp add: announce_def Let_def)

lemma announce_Event: "Event (snd (announce s ev e)) = snd (accrue s ev e)"
  by (simp add: announce_request request_def)

lemma loop_complete:
  "complete s \<Longrightarrow> count_Completed (fst (loop s sigs)) = 0"
proof (induction sigs arbitrary: s)
  case Nil
  then show ?case by (simp add: count_Completed_def)
next
  case (Cons sg rest)
  show ?case
  proof (cases sg)
    case (Timer e)
    show ?thesis
    proof (cases "interval s")
      case nil
      then show ?thesis using Cons Timer by simp
    next
      case (After d)
      have c: "complete (fst (announce s None_event e))"
        using accrue_complete(1) [OF Cons.prems] by (simp add: announce_complete)
      have "Event (snd (announce s None_event e)) = None_event"
        using accrue_complete(2) [OF Cons.prems] by (simp add: announce_Event)
      then show ?thesis
        using Cons.IH [OF c] unfolding Timer loop_Timer [OF After]
        by (simp add: count_Completed_def)
    qed
  next
    case (Interrupt e)
    have "Event (snd (announce s Stopped e)) = Stopped"
      using accrue_complete(2) [OF Cons.prems] by (simp add: announce_Event)
    then show ?thesis unfolding Interrupt loop_Interrupt by (simp add: count_Completed_def)
  qed
qed

lemma loop_Completed_once: "count_Completed (fst (loop s sigs)) \<le> 1"
proof (induction sigs arbitrary: s)
  case Nil
  then show ?case by (simp add: count_Completed_def)
next
  case (Cons sg rest)
  show ?case
  proof (cases sg)
    case (Timer e)
    show ?thesis
    proof (cases "interval s")
      case nil
      then show ?thesis using Cons Timer by simp
    next
      case (After d)
      let ?s' = "fst (announce s None_event e)"
      show ?thesis
      proof (cases "Event (snd (announce s None_event e)) = Completed")
        case True
        then have "complete ?s'"
          using accrue_Completed(2) [of None_event s e] by (simp add: announce_Event announce_complete)
        then have "count_Completed (fst (loop ?s' rest)) = 0" by (rule loop_complete)
        then show ?thesis using True unfolding Timer loop_Timer [OF After]
          by (simp add: count_Completed_def)
      next
        case False
        then show ?thesis using Cons.IH [of ?s'] unfolding Timer loop_Timer [OF After]
          by (simp add: count_Completed_def)
      qed
    qed
  next
    case (Interrupt e)
    show ?thesis unfolding Interrupt loop_Interrupt by (simp add: count_Completed_def)
  qed
qed

lemma main_announce_Completed_once:
  "count_Completed (fst (main_announce s e0 sigs)) \<le> 1"
proof -
  let ?s' = "fst (announce s Started e0)"
  have m: "fst (main_announce s e0 sigs) = snd (announce s Started e0) # fst (loop ?s' sigs)"
    by (simp add: main_announce_def split: prod.splits)
  show ?thesis
  proof (cases "Event (snd (announce s Started e0)) = Completed")
    case True
    then have "complete ?s'"
      using accrue_Completed(2) [of Started s e0] by (simp add: announce_Event announce_complete)
    then have "count_Completed (fst (loop ?s' sigs)) = 0" by (rule loop_complete)
    then show ?thesis using True unfolding m by (simp add: count_Completed_def)
  next
    case False
    then show ?thesis using loop_Completed_once [of ?s' sigs] unfolding m
      by (simp add: count_Completed_def)
  qed
qed

lemma Completed_at_cap:
  assumes "ev \<noteq> Completed" "Event (snd (announce s ev e)) = Completed"
  shows "Downloaded (snd (announce s ev e)) = size' s" and "\<not> complete s"
  using accrue_Completed [OF assms(1), of s e] assms(2)
  by (simp_all add: announce_Event announce_request request_def)

lemma scenario_events:
  "map (\<lambda>r. (Event r, sint (Downloaded r), uint (Left r)))
     (fst (main_announce scenario (at_time 100 (reply_ok 1000))
        [Timer (at_time 1100 (reply_ok 1000)), Timer (at_time 2100 (reply_ok 1000)),
         Timer (at_time 3100 (reply_ok 1000))]))
   = [(Started, 0, 10000000000), (None_event, 5000000000, 5000000000),
      (Completed, 10000000000, 0), (None_event, 10000000000, 0)]"
  by (simp add: sample_defs engine_defs)

text \<open>
  C2 holds for the engine (\<open>main_announce_Completed_once\<close>, \<open>Completed_at_cap\<close>) and fails
  for the polling loop of \<^verbatim>\<open>main.go\<close>, which has no flag for a completion already
  reported: with a torrent of 1000 bytes at 100 B/s it reports \<^verbatim>\<open>Completed\<close> at every
  iteration from the one that reaches the total length.
\<close>

theorem polling_repeats_Completed:
  "map_option (map (\<lambda>r. (Event r, sint (Downloaded r))))
     (polling small_globals
        [tick_at 100 (\<lambda>n. reply_ok 10), tick_at 110 (\<lambda>n. reply_ok 10),
         tick_at 120 (\<lambda>n. reply_ok 10), tick_at 130 (\<lambda>n. reply_ok 10)])
   = Some [(Started, 0), (Completed, 1000), (Completed, 1000), (Completed, 1000)]"
  by (simp add: sample_defs polling_defs)

lemma announce_Stopped:
  assumes "complete s \<or> down (fst (accrue s Stopped e)) \<noteq> size' s"
  shows "Event (snd (announce s Stopped e)) = Stopped"
    and "interval (fst (announce s Stopped e)) = nil"
proof -
  have ev: "snd (accrue s Stopped e) = Stopped"
    using assms accrue_Completed(3) [of Stopped s e] accrue_complete(2) [of s Stopped e]
      accrue_event [of s Stopped e] by auto
  show "Event (snd (announce s Stopped e)) = Stopped" using ev by (simp add: announce_Event)
  show "interval (fst (announce s Stopped e)) = nil"
    using ev by (cases "accrue s Stopped e") (simp add: announce_def Let_def)
qed

text \<open>
  C3 fails where the download completes at the final announce: \<^verbatim>\<open>announce(tracker.Stopped)\<close>
  overwrites its event with \<^verbatim>\<open>Completed\<close>, so the last request of the run is not a
  \<^verbatim>\<open>Stopped\<close> one, and after a failure of that request a timer is set. Interrupted 2100
  seconds after the start, the sample session sends \<^verbatim>\<open>Started\<close> and \<^verbatim>\<open>Completed\<close> and
  returns. (Where the event is not overwritten, \<open>announce_Stopped\<close> and \<open>loop_Interrupt\<close>
  give the claim.)
\<close>

theorem interrupt_announces_Completed:
  "map (\<lambda>r. (Event r, sint (Downloaded r)))
     (fst (main_announce scenario (at_time 100 (reply_ok 3600))
        [Interrupt (at_time 2200 (reply_ok 0))]))
     = [(Started, 0), (Completed, 10000000000)]
   \<and> snd (main_announce scenario (at_time 100 (reply_ok 3600))
        [Interrupt (at_time 2200 (reply_ok 0))])
   \<and> interval (fst (announce (fst (announce scenario Started (at_time 100 (reply_ok 3600))))
                    Stopped (at_time 2200 reply_failed)))
       = After retryInterval"
  by (simp add: sample_defs engine_defs)

lemma iteration_never_starts:
  assumes "\<not> started g" "\<And>k. err (results e k)"
  shows "iteration g e = None"
  using assms(1) startup_never [of "results e" 0, OF assms(2)]
  by (simp add: iteration_def Let_def split: prod.splits)

lemma iteration_starts:
  assumes "\<not> started g" "\<not> err (results e n)" "\<And>k. k < n \<Longrightarrow> err (results e k)"
  shows "\<exists>g' d. iteration g e = Some (g', replicate (Suc n) (build_request g Started), d)"
proof -
  have "startup (results e) 0 = Some (resp (results e n), n)"
    by (rule startup_first) (use assms in simp_all)
  then show ?thesis using assms(1) by (simp add: iteration_def advance_def Let_def)
qed

text \<open>
  C4 holds for the startup loop of \<^verbatim>\<open>main.go\<close> (\<open>iteration_never_starts\<close>,
  \<open>iteration_starts\<close>) and fails for the engine: after a failed \<^verbatim>\<open>Started\<close> announce the
  timer of the retry interval triggers \<^verbatim>\<open>announce(tracker.None)\<close>, which accrues progress
  and sends a periodic request; \<^verbatim>\<open>Started\<close> is not sent again.
\<close>

theorem failed_start_then_periodic:
  "map (\<lambda>r. (Event r, sint (Downloaded r), sint (Uploaded r)))
     (fst (main_announce scenario (at_time 100 reply_failed)
        [Timer (at_time 130 reply_failed), Timer (at_time 160 (reply_ok 3600))]))
   = [(Started, 0, 0), (None_event, 150000000, 60000000), (None_event, 300000000, 120000000)]"
  by (simp add: sample_defs engine_defs)

end
